theory Spec2Isabelle
  imports Main "HOL-Library.Word"
begin

section \<open>The format registry (format.go, lines 19--39 and 146--166)\<close>

text \<open>
  \<^verbatim>\<open>type Format int\<close>: a Go \<^verbatim>\<open>int\<close>. The package only compares formats with the six
  constants and never computes with them, so the model uses \<^typ>\<open>int\<close>; any value,
  also \<open>-1\<close> or \<open>6\<close>, is a well-formed \<^verbatim>\<open>Format\<close>.
\<close>

type_synonym Format = int

definition JPEG :: Format where "JPEG = 0"
definition PNG :: Format where "PNG = 1"
definition GIF :: Format where "GIF = 2"
definition TIFF :: Format where "TIFF = 3"
definition BMP :: Format where "BMP = 4"
definition PDF :: Format where "PDF = 5"

text \<open>
  \<^verbatim>\<open>var formatExts = map[Format]string{JPEG: "jpg", ...}\<close>. A Go map is a finite partial
  function; no function of the package assigns to the variable.
\<close>

definition formatExts :: "Format \<rightharpoonup> string" where
  "formatExts = [JPEG \<mapsto> ''jpg'', PNG \<mapsto> ''png'', GIF \<mapsto> ''gif'',
                 TIFF \<mapsto> ''tif'', BMP \<mapsto> ''bmp'', PDF \<mapsto> ''pdf'']"

text \<open>
  An \<^verbatim>\<open>error\<close> value, identified by the text its \<^verbatim>\<open>Error()\<close> method returns;
  \<^verbatim>\<open>errors.New(msg)\<close> is \<open>Error msg\<close>, and \<^verbatim>\<open>nil\<close> is \<open>None\<close> of
  \<open>error option\<close>.
\<close>

datatype error = Error (message: string)

definition errors_New :: "string \<Rightarrow> error" where
  "errors_New msg = Error msg"

subsection \<open>\<^verbatim>\<open>strings.ToLower\<close>\<close>

text \<open>
  A Go string is a sequence of bytes, here a \<^typ>\<open>string\<close>. The standard library's
  \<^verbatim>\<open>strings.ToLower\<close> first scans for a byte \<open>\<ge> 0x80\<close>. An ASCII-only string is
  returned as it is when it has no upper-case letter, and otherwise with \<open>'a' - 'A'\<close>
  added to every byte in \<open>'A'..'Z'\<close>. Any other string goes through
  \<^verbatim>\<open>Map(unicode.ToLower, s)\<close>, whose Unicode tables are outside the repository: that
  branch is the parameter \<open>unicode_lower\<close>, about which nothing is assumed.
\<close>

definition isASCII :: "string \<Rightarrow> bool" where
  "isASCII s = list_all (\<lambda>c. (of_char c :: nat) < 128) s"

definition isUpper :: "char \<Rightarrow> bool" where
  "isUpper c = (65 \<le> (of_char c :: nat) \<and> (of_char c :: nat) \<le> 90)"

definition hasUpper :: "string \<Rightarrow> bool" where
  "hasUpper s = list_ex isUpper s"

definition lower_byte :: "char \<Rightarrow> char" where
  "lower_byte c = (if isUpper c then char_of ((of_char c :: nat) + 32) else c)"

definition strings_ToLower :: "(string \<Rightarrow> string) \<Rightarrow> string \<Rightarrow> string" where
  "strings_ToLower unicode_lower s =
     (if isASCII s then (if \<not> hasUpper s then s else map lower_byte s)
      else unicode_lower s)"

subsection \<open>\<^verbatim>\<open>FormatFromExtension\<close> and \<^verbatim>\<open>StringOfFormat\<close>\<close>

text \<open>
  \<^verbatim>\<open>for k, v := range formatExts\<close> visits every entry of the map exactly once, in an
  order Go leaves unspecified. An iteration order of a map \<open>m\<close> is a list of its entries
  without repetition; the loop takes the order of one run as a parameter.
\<close>

definition range_order :: "('k \<rightharpoonup> 'v) \<Rightarrow> ('k \<times> 'v) list \<Rightarrow> bool" where
  "range_order m kvs = (distinct kvs \<and> set kvs = Map.graph m)"

text \<open>
  The loop of \<^verbatim>\<open>FormatFromExtension\<close>: \<open>Some\<close> is the \<^verbatim>\<open>return k, nil\<close> inside the
  loop, \<open>None\<close> is leaving the loop with no match.
\<close>

fun FormatFromExtension_loop :: "(Format \<times> string) list \<Rightarrow> string \<Rightarrow> (Format \<times> error option) option" where
  "FormatFromExtension_loop [] ext = None"
| "FormatFromExtension_loop ((k, v) # kvs) ext =
     (if ext = v then Some (k, None) else FormatFromExtension_loop kvs ext)"

definition FormatFromExtension ::
    "(string \<Rightarrow> string) \<Rightarrow> (Format \<times> string) list \<Rightarrow> string \<Rightarrow> Format \<times> error option" where
  "FormatFromExtension unicode_lower kvs ext =
     (let ext = strings_ToLower unicode_lower ext in
      case FormatFromExtension_loop kvs ext of
        Some r \<Rightarrow> r
      | None \<Rightarrow> (- 1, Some (errors_New ''unsupported image format'')))"

definition StringOfFormat :: "Format \<Rightarrow> string \<times> error option" where
  "StringOfFormat f =
     (case formatExts f of
        None \<Rightarrow> ('''', Some (errors_New ''no such format''))
      | Some str \<Rightarrow> (str, None))"

text \<open>The entries of \<^const>\<open>formatExts\<close> in the order the source lists them.\<close>

definition formatExts_entries :: "(Format \<times> string) list" where
  "formatExts_entries =
     [(JPEG, ''jpg''), (PNG, ''png''), (GIF, ''gif''), (TIFF, ''tif''), (BMP, ''bmp''), (PDF, ''pdf'')]"

section \<open>TIFF compression types (format.go, lines 41--68)\<close>

text \<open>
  \<^verbatim>\<open>type TIFFCompression int\<close> with the constants \<open>0..5\<close>. The codec's own
  \<^verbatim>\<open>tiff.CompressionType\<close> constants belong to the external TIFF package; only their
  names are used, so they are the constructors of a datatype.
\<close>

type_synonym TIFFCompression = int

definition TIFFUncompressed :: TIFFCompression where "TIFFUncompressed = 0"
definition TIFFDeflate :: TIFFCompression where "TIFFDeflate = 1"
definition TIFFLZW :: TIFFCompression where "TIFFLZW = 2"
definition TIFFCCITTGroup3 :: TIFFCompression where "TIFFCCITTGroup3 = 3"
definition TIFFCCITTGroup4 :: TIFFCompression where "TIFFCCITTGroup4 = 4"
definition TIFFJPEG :: TIFFCompression where "TIFFJPEG = 5"

datatype tiff_CompressionType =
    tiff_Uncompressed | tiff_Deflate | tiff_LZW | tiff_CCITTGroup3 | tiff_CCITTGroup4 | tiff_JPEG

definition TIFFCompression_value :: "TIFFCompression \<Rightarrow> tiff_CompressionType" where
  "TIFFCompression_value c =
     (if c = TIFFLZW then tiff_LZW
      else if c = TIFFDeflate then tiff_Deflate
      else if c = TIFFCCITTGroup3 then tiff_CCITTGroup3
      else if c = TIFFCCITTGroup4 then tiff_CCITTGroup4
      else if c = TIFFJPEG then tiff_JPEG
      else tiff_Uncompressed)"

section \<open>Encode configuration (format.go, lines 70--144)\<close>

text \<open>
  \<^verbatim>\<open>draw.Quantizer\<close> and \<^verbatim>\<open>draw.Drawer\<close> are interfaces of the standard library; a
  field of such a type holds \<^verbatim>\<open>nil\<close> (\<open>None\<close>) or some implementation.
  \<^verbatim>\<open>png.CompressionLevel\<close> is an \<^verbatim>\<open>int\<close> whose constant \<^verbatim>\<open>DefaultCompression\<close> is \<open>0\<close>.
\<close>

typedecl Quantizer
typedecl Drawer

type_synonym png_CompressionLevel = int

definition png_DefaultCompression :: png_CompressionLevel where
  "png_DefaultCompression = 0"

record encodeConfig =
  Quality :: int
  gifNumColors :: int
  gifQuantizer :: "Quantizer option"
  gifDrawer :: "Drawer option"
  pngCompressionLevel :: png_CompressionLevel
  tiffCompressionType :: TIFFCompression

text \<open>
  \<^verbatim>\<open>type EncodeOption func(*encodeConfig)\<close>: the function receives a pointer to a
  configuration and updates it in place, so it is a function from the configuration
  before the call to the one after it. \<^verbatim>\<open>encodeConfig\<close> is not exported, so the
  closures of the six constructors below are the only such functions; each assigns one
  field through its pointer and touches nothing else. The elements of
  \<^verbatim>\<open>f.EncodeOption\<close> are function values, and \<^verbatim>\<open>f\<close> and an \<^verbatim>\<open>*image.NRGBA\<close> are
  pointers to structs: \<^verbatim>\<open>nil\<close> is none of them here.
\<close>

type_synonym EncodeOption = "encodeConfig \<Rightarrow> encodeConfig"

record FormatOption =
  Format :: Format
  EncodeOption :: "EncodeOption list"

text \<open>The initialiser of the package variable \<^verbatim>\<open>defaultEncodeConfig\<close>.\<close>

definition defaultEncodeConfig_init :: encodeConfig where
  "defaultEncodeConfig_init =
     \<lparr>Quality = 75,
      gifNumColors = 256,
      gifQuantizer = None,
      gifDrawer = None,
      pngCompressionLevel = png_DefaultCompression,
      tiffCompressionType = TIFFLZW\<rparr>"

text \<open>
  The option constructors. The source's \<^verbatim>\<open>Quality\<close> is both the field and the
  constructor; the constructor is \<open>Quality_option\<close> here.
\<close>

definition Quality_option :: "int \<Rightarrow> EncodeOption" where
  "Quality_option quality = (\<lambda>c. c\<lparr>Quality := quality\<rparr>)"

definition GIFNumColors :: "int \<Rightarrow> EncodeOption" where
  "GIFNumColors numColors = (\<lambda>c. c\<lparr>gifNumColors := numColors\<rparr>)"




definition TIFFCompressionType :: "TIFFCompression \<Rightarrow> EncodeOption" where
  "TIFFCompressionType compressionType = (\<lambda>c. c\<lparr>tiffCompressionType := compressionType\<rparr>)"

section \<open>Images in memory\<close>

text \<open>
  What \<^verbatim>\<open>Encode\<close> reads of the standard library's \<^verbatim>\<open>image\<close> package. A slice is
  its header: the address of its first element in memory, its length and its capacity.
  Two slices with the same header share their backing array. Memory maps an address to
  a byte. The coordinates of a rectangle and the stride of an image are Go \<^verbatim>\<open>int\<close>s that
  the library adds, subtracts and multiplies: they are 64-bit words, \<open>+\<close>, \<open>-\<close> and \<open>*\<close>
  wrap around as Go's do, and \<open>sint\<close> reads a word as the signed number Go compares.
\<close>

type_synonym byte = "8 word"
type_synonym heap = "nat \<Rightarrow> byte"
type_synonym int64 = "64 word"

record slice =
  array :: nat
  len :: nat
  cap :: nat

record Point =
  X :: int64
  Y :: int64

record Rectangle =
  Min_pt :: Point
  Max_pt :: Point

text \<open>
  \<^verbatim>\<open>image.NRGBA\<close> and \<^verbatim>\<open>image.RGBA\<close> are two struct types with the same three
  fields. The dynamic type of an \<^verbatim>\<open>image.Image\<close> is the constructor; every
  implementation other than \<^verbatim>\<open>*image.NRGBA\<close> and \<^verbatim>\<open>*image.RGBA\<close> is opaque.
\<close>

record pixels =
  Pix :: slice
  Stride :: int64
  Rect :: Rectangle

typedecl other_image

datatype Image = Image_NRGBA pixels | Image_RGBA pixels | Image_other other_image

text \<open>\<^verbatim>\<open>s[i]\<close>: \<open>None\<close> is the run-time panic for an index out of range.\<close>

definition slice_index :: "heap \<Rightarrow> slice \<Rightarrow> int64 \<Rightarrow> byte option" where
  "slice_index h s i =
     (if 0 \<le> sint i \<and> sint i < int (len s) then Some (h (array s + nat (sint i))) else None)"

definition Rectangle_Empty :: "Rectangle \<Rightarrow> bool" where
  "Rectangle_Empty r =
     (sint (X (Min_pt r)) \<ge> sint (X (Max_pt r)) \<or> sint (Y (Min_pt r)) \<ge> sint (Y (Max_pt r)))"

definition Rectangle_Dx :: "Rectangle \<Rightarrow> int64" where
  "Rectangle_Dx r = X (Max_pt r) - X (Min_pt r)"

text \<open>
  \<^verbatim>\<open>func (p *NRGBA) Opaque() bool\<close> of the standard library:
  \<^verbatim>\<open>
  if p.Rect.Empty() { return true }
  i0, i1 := 3, p.Rect.Dx()*4
  for y := p.Rect.Min.Y; y < p.Rect.Max.Y; y++ {
      for i := i0; i < i1; i += 4 {
          if p.Pix[i] != 0xff { return false }
      }
      i0 += p.Stride
      i1 += p.Stride
  }
  return true
  \<close>
  \<open>Opaque_row\<close> is the inner loop and \<open>Opaque_rows\<close> the outer one; \<open>Some False\<close> is
  the \<^verbatim>\<open>return false\<close>, \<open>Some True\<close> the end of the loop, \<open>None\<close> the panic of
  an index out of range. \<^verbatim>\<open>i += 4\<close>, \<^verbatim>\<open>y++\<close> and the two \<^verbatim>\<open>+= p.Stride\<close> wrap
  around. The inner loop ends all the same: it goes on only after a read inside
  \<open>Pix\<close>, so from an index that is not negative, and an \<^verbatim>\<open>i += 4\<close> that wraps around
  leaves a negative index, whose read panics.
\<close>

function Opaque_row :: "heap \<Rightarrow> slice \<Rightarrow> int64 \<Rightarrow> int64 \<Rightarrow> bool option" where
  "Opaque_row h pix i i1 =
     (if sint i < sint i1 then
        (case slice_index h pix i of
           None \<Rightarrow> None
         | Some a \<Rightarrow> if a \<noteq> 0xff then Some False else Opaque_row h pix (i + 4) i1)
      else Some True)"
  by pat_completeness auto
termination
proof (relation "measure (\<lambda>(h, pix, i, i1). if sint i < 0 then 0 else nat (sint i1 - sint i) + 1)",
    goal_cases)
  case 1
  show ?case by simp
next
  case (2 h pix i i1 a)
  from 2(2) have nonneg: "0 \<le> sint i"
    by (simp add: slice_index_def split: if_splits)
  have top: "sint i < 2 ^ 63"
    using sint_lt [of i] by simp
  have step: "sint (i + 4) = sint i + 4" if "0 \<le> sint (i + 4)"
  proof (cases "sint i + 4 < 2 ^ 63")
    case True
    then show ?thesis
      using nonneg by (simp add: sint_word_add signed_take_bit_int_eq_self)
  next
    case False
    have "sint (i + 4) = take_bit 64 (sint i + 4 + 2 ^ 63) - 2 ^ 63"
      by (simp add: sint_word_add signed_take_bit_eq_take_bit_shift)
    also have "take_bit 64 (sint i + 4 + 2 ^ 63) = (sint i + 4 + 2 ^ 63) mod 2 ^ 64"
      by (rule take_bit_eq_mod)
    also have "\<dots> = (sint i + 4 + 2 ^ 63 - 2 ^ 64) mod 2 ^ 64"
      by (rule minus_mod_self2 [symmetric])
    also have "\<dots> = sint i + 4 + 2 ^ 63 - 2 ^ 64"
      using False top by (intro mod_pos_pos_trivial) simp_all
    finally have "sint (i + 4) < 0"
      using top by simp
    with that show ?thesis by simp
  qed
  show ?case
    using 2(1) nonneg step by (cases "0 \<le> sint (i + 4)") simp_all
qed

function Opaque_rows :: "heap \<Rightarrow> pixels \<Rightarrow> int64 \<Rightarrow> int64 \<Rightarrow> int64 \<Rightarrow> bool option" where
  "Opaque_rows h p y i0 i1 =
     (if sint y < sint (Y (Max_pt (Rect p))) then
        (case Opaque_row h (Pix p) i0 i1 of
           None \<Rightarrow> None
         | Some False \<Rightarrow> Some False
         | Some True \<Rightarrow> Opaque_rows h p (y + 1) (i0 + Stride p) (i1 + Stride p))
      else Some True)"
  by pat_completeness auto
termination
proof (relation "measure (\<lambda>(h, p, y, i0, i1). nat (sint (Y (Max_pt (Rect p))) - sint y))", goal_cases)
  case 1
  show ?case by simp
next
  case (2 h p y i0 i1 b)
  have "sint (Y (Max_pt (Rect p))) < 2 ^ 63" and "- (2 ^ 63) \<le> sint y"
    using sint_lt [of "Y (Max_pt (Rect p))"] sint_ge [of y] by simp_all
  with 2(1) have "sint (y + 1) = sint y + 1"
    by (simp add: sint_word_add signed_take_bit_int_eq_self)
  with 2(1) show ?case by simp
qed

definition NRGBA_Opaque :: "heap \<Rightarrow> pixels \<Rightarrow> bool option" where
  "NRGBA_Opaque h p =
     (if Rectangle_Empty (Rect p) then Some True
      else Opaque_rows h p (Y (Min_pt (Rect p))) 3 (Rectangle_Dx (Rect p) * 4))"

text \<open>
  What the \<^verbatim>\<open>image\<close> package documents of an \<^verbatim>\<open>NRGBA\<close>: the pixel at \<open>(x, y)\<close>
  starts at \<^verbatim>\<open>Pix[(y-Rect.Min.Y)*Stride + (x-Rect.Min.X)*4]\<close> (the method \<^verbatim>\<open>PixOffset\<close>,
  which computes in \<^verbatim>\<open>int\<close>), its four bytes are R, G, B and A, and a pixel is fully
  opaque when its A is \<open>0xff\<close>. The pixels of the image are those with
  \<open>Min.X \<le> x < Max.X\<close> and \<open>Min.Y \<le> y < Max.Y\<close>.
\<close>

definition PixOffset :: "pixels \<Rightarrow> int64 \<Rightarrow> int64 \<Rightarrow> int64" where
  "PixOffset p x y = (y - Y (Min_pt (Rect p))) * Stride p + (x - X (Min_pt (Rect p))) * 4"

definition alpha_at :: "heap \<Rightarrow> pixels \<Rightarrow> int64 \<Rightarrow> int64 \<Rightarrow> byte option" where
  "alpha_at h p x y = slice_index h (Pix p) (PixOffset p x y + 3)"

definition fully_opaque :: "heap \<Rightarrow> pixels \<Rightarrow> bool" where
  "fully_opaque h p =
     (\<forall>y \<in> {sint (Y (Min_pt (Rect p))) ..< sint (Y (Max_pt (Rect p)))}.
      \<forall>x \<in> {sint (X (Min_pt (Rect p))) ..< sint (X (Max_pt (Rect p)))}.
        alpha_at h p (word_of_int x) (word_of_int y) = Some 0xff)"

text \<open>
  \<open>pixels_wf\<close>: \<open>Pix\<close> holds the four bytes of every pixel of \<open>Rect\<close>, where
  \<open>pixel_start\<close> is the offset of a pixel as a number, with no wrap-around, and \<open>Pix\<close>
  is shorter than \<open>2^63 - 3\<close> bytes. Every image the \<^verbatim>\<open>image\<close> package creates is so.
\<close>

definition pixel_start :: "pixels \<Rightarrow> int \<Rightarrow> int \<Rightarrow> int" where
  "pixel_start p x y =
     (y - sint (Y (Min_pt (Rect p)))) * sint (Stride p) + (x - sint (X (Min_pt (Rect p)))) * 4"

definition pixels_wf :: "pixels \<Rightarrow> bool" where
  "pixels_wf p =
     (int (len (Pix p)) + 3 < 2 ^ 63 \<and>
      (\<forall>y \<in> {sint (Y (Min_pt (Rect p))) ..< sint (Y (Max_pt (Rect p)))}.
       \<forall>x \<in> {sint (X (Min_pt (Rect p))) ..< sint (X (Max_pt (Rect p)))}.
         0 \<le> pixel_start p x y \<and> pixel_start p x y + 4 \<le> int (len (Pix p))))"

section \<open>\<^verbatim>\<open>Encode\<close> (format.go, lines 180--221)\<close>

text \<open>
  The codecs are external packages. A call of one of them is a value: the codec and the
  arguments \<^verbatim>\<open>Encode\<close> gives it besides the writer (for \<^verbatim>\<open>png_Encode\<close> the
  \<^verbatim>\<open>CompressionLevel\<close> of the \<^verbatim>\<open>png.Encoder\<close>, for \<^verbatim>\<open>tiff_Encode\<close> the \<^verbatim>\<open>Compression\<close> and
  \<^verbatim>\<open>Predictor\<close> of the \<^verbatim>\<open>tiff.Options\<close>).
\<close>

datatype codec_call =
    jpeg_Encode Image int
  | png_Encode png_CompressionLevel Image
  | gif_Encode Image int "Quantizer option" "Drawer option"
  | tiff_Encode Image tiff_CompressionType bool
  | bmp_Encode Image
  | pdf_Encode "Image list" int

text \<open>
  What is outside the package: memory, and the bytes written to the writer \<^verbatim>\<open>w\<close> so
  far. A codec is any function that takes a call and the world to the world after the
  call and the \<^verbatim>\<open>error\<close> it returns. The package variable \<^verbatim>\<open>defaultEncodeConfig\<close> is
  not exported, so no codec reaches it: it is a component of the state beside the world.
\<close>

record world =
  heap :: heap
  sink :: "byte list"

type_synonym codecs = "codec_call \<Rightarrow> world \<Rightarrow> world \<times> error option"

record state =
  defaultEncodeConfig :: encodeConfig
  world :: world

text \<open>
  Lines 182--185: \<^verbatim>\<open>cfg := defaultEncodeConfig\<close> copies the struct, and every option
  is called on a pointer to the copy, in the order of the slice.
\<close>

definition Encode_config :: "state \<Rightarrow> FormatOption \<Rightarrow> encodeConfig" where
  "Encode_config s f = fold (\<lambda>option cfg. option cfg) (EncodeOption f) (defaultEncodeConfig s)"

text \<open>
  Lines 187--220, the \<^verbatim>\<open>switch f.Format\<close>: the codec call it ends in, the error of
  its last line, or the panic of \<^verbatim>\<open>Opaque\<close>.
\<close>

datatype dispatch = Invoke codec_call | Return_error error | Panic

definition Encode_switch :: "heap \<Rightarrow> Format \<Rightarrow> encodeConfig \<Rightarrow> Image \<Rightarrow> dispatch" where
  "Encode_switch h fmt cfg img =
     (if fmt = JPEG then
        (case img of
           Image_NRGBA nrgba \<Rightarrow>
             (case NRGBA_Opaque h nrgba of
                None \<Rightarrow> Panic
              | Some True \<Rightarrow>
                  Invoke (jpeg_Encode
                    (Image_RGBA \<lparr>Pix = Pix nrgba, Stride = Stride nrgba, Rect = Rect nrgba\<rparr>)
                    (Quality cfg))
              | Some False \<Rightarrow> Invoke (jpeg_Encode img (Quality cfg)))
         | _ \<Rightarrow> Invoke (jpeg_Encode img (Quality cfg)))
      else if fmt = PNG then Invoke (png_Encode (pngCompressionLevel cfg) img)
      else if fmt = GIF then
        Invoke (gif_Encode img (gifNumColors cfg) (gifQuantizer cfg) (gifDrawer cfg))
      else if fmt = TIFF then
        Invoke (tiff_Encode img (TIFFCompression_value (tiffCompressionType cfg)) True)
      else if fmt = BMP then Invoke (bmp_Encode img)
      else if fmt = PDF then Invoke (pdf_Encode [img] (Quality cfg))
      else Return_error (errors_New ''unsupported image format''))"

text \<open>Running a codec on the world of a state; the package variable is out of its reach.\<close>

definition invoke :: "codecs \<Rightarrow> codec_call \<Rightarrow> state \<Rightarrow> state \<times> error option" where
  "invoke codec c s = (let (w', e) = codec c (world s) in (s\<lparr>world := w'\<rparr>, e))"

text \<open>\<^verbatim>\<open>Encode\<close>: \<open>None\<close> is a panic, \<open>Some (s', e)\<close> the state after the call and the error returned.\<close>

definition Encode :: "codecs \<Rightarrow> FormatOption \<Rightarrow> state \<Rightarrow> Image \<Rightarrow> (state \<times> error option) option" where
  "Encode codec f s img =
     (let cfg = Encode_config s f in
      case Encode_switch (heap (world s)) (Format f) cfg img of
        Panic \<Rightarrow> None
      | Return_error e \<Rightarrow> Some (s, Some e)
      | Invoke c \<Rightarrow> Some (invoke codec c s))"

text \<open>
  A run of the program that calls \<^verbatim>\<open>Encode\<close> one call after the other; a panic ends
  the run. The result is the state at the end of the run.
\<close>

fun Encode_run :: "codecs \<Rightarrow> (FormatOption \<times> Image) list \<Rightarrow> state \<Rightarrow> state" where
  "Encode_run codec [] s = s"
| "Encode_run codec ((f, img) # calls) s =
     (case Encode codec f s img of
        None \<Rightarrow> s
      | Some (s', e) \<Rightarrow> Encode_run codec calls s')"

section \<open>Example inputs\<close>

text \<open>
  A 2-by-1 image whose eight bytes start at address 100, a memory where every byte is
  \<open>0xff\<close>, and one where the alpha byte of the second pixel (address 107) is \<open>0x80\<close>;
  a codec that appends one byte to the writer and returns \<^verbatim>\<open>nil\<close>; the state of a
  program that has just started; three calls of \<^verbatim>\<open>Encode\<close>.

  Two images whose \<open>Pix\<close> does not hold their pixels. The first is 3 by 2 with a
  stride of 1 on nine bytes, in a memory whose byte at address 104, the alpha of pixel
  \<open>(0, 1)\<close>, is \<open>0\<close>: the first row reads \<open>Pix[3]\<close>, \<open>Pix[7]\<close> and then
  \<open>Pix[11]\<close>. The second has one pixel of four bytes and a \<open>Rect\<close> from
  \<open>Min.X = -2^63\<close> to \<open>Max.X = 1\<close>: \<^verbatim>\<open>Dx()\<close> wraps around to \<open>-2^63 + 1\<close> and
  \<^verbatim>\<open>Dx()*4\<close> to \<open>4\<close>, so the row reads \<open>Pix[3]\<close> only.
\<close>

definition opaque_heap :: heap where
  "opaque_heap = (\<lambda>a. 0xff)"

definition translucent_heap :: heap where
  "translucent_heap = (\<lambda>a. if a = 107 then 0x80 else 0xff)"

definition image_2x1 :: pixels where
  "image_2x1 =
     \<lparr>Pix = \<lparr>array = 100, len = 8, cap = 8\<rparr>,
      Stride = 8,
      Rect = \<lparr>Min_pt = \<lparr>X = 0, Y = 0\<rparr>, Max_pt = \<lparr>X = 2, Y = 1\<rparr>\<rparr>\<rparr>"

definition logging_codec :: codecs where
  "logging_codec c w = (w\<lparr>sink := sink w @ [0x2a]\<rparr>, None)"

definition initial_state :: "heap \<Rightarrow> state" where
  "initial_state h = \<lparr>defaultEncodeConfig = defaultEncodeConfig_init, world = \<lparr>heap = h, sink = []\<rparr>\<rparr>"

definition hole_heap :: heap where
  "hole_heap = (\<lambda>a. if a = 104 then 0 else 0xff)"

definition image_3x2_short :: pixels where
  "image_3x2_short =
     \<lparr>Pix = \<lparr>array = 100, len = 9, cap = 9\<rparr>,
      Stride = 1,
      Rect = \<lparr>Min_pt = \<lparr>X = 0, Y = 0\<rparr>, Max_pt = \<lparr>X = 3, Y = 2\<rparr>\<rparr>\<rparr>"

definition image_wide :: pixels where
  "image_wide =
     \<lparr>Pix = \<lparr>array = 100, len = 4, cap = 4\<rparr>,
      Stride = 4,
      Rect = \<lparr>Min_pt = \<lparr>X = - (2 ^ 63), Y = 0\<rparr>, Max_pt = \<lparr>X = 1, Y = 1\<rparr>\<rparr>\<rparr>"

definition example_calls :: "(FormatOption \<times> Image) list" where
  "example_calls =
     [(\<lparr>Format = JPEG, EncodeOption = [Quality_option 10]\<rparr>, Image_NRGBA image_2x1),
      (\<lparr>Format = GIF, EncodeOption = [GIFNumColors 16, TIFFCompressionType TIFFJPEG]\<rparr>, Image_RGBA image_2x1),
      (\<lparr>Format = 6, EncodeOption = [Quality_option 0]\<rparr>, Image_RGBA image_2x1)]"

lemmas Format_defs = JPEG_def PNG_def GIF_def TIFF_def BMP_def PDF_def

lemmas TIFFCompression_defs =
  TIFFUncompressed_def TIFFDeflate_def TIFFLZW_def TIFFCCITTGroup3_def TIFFCCITTGroup4_def TIFFJPEG_def

lemma formatExts_graph: "Map.graph formatExts = set formatExts_entries"
  by (auto simp: formatExts_def formatExts_entries_def Map.graph_def Format_defs split: if_splits)

section \<open>Properties of the registry\<close>

lemma loop_None_iff: "FormatFromExtension_loop kvs ext = None \<longleftrightarrow> ext \<notin> snd ` set kvs"
  by (induction kvs ext rule: FormatFromExtension_loop.induct) auto

lemma loop_Some_iff:
  "distinct (map snd kvs) \<Longrightarrow>
   FormatFromExtension_loop kvs ext = Some r \<longleftrightarrow> (\<exists>k. r = (k, None) \<and> (k, ext) \<in> set kvs)"
  by (induction kvs ext rule: FormatFromExtension_loop.induct) (auto simp: image_iff)

lemma formatExts_entries_inj: "inj_on snd (set formatExts_entries)"
  by (simp add: formatExts_entries_def)

lemma range_order_formatExts:
  assumes "range_order formatExts kvs"
  shows "set kvs = set formatExts_entries" and "distinct (map snd kvs)"
proof -
  show s: "set kvs = set formatExts_entries"
    using assms by (simp add: range_order_def formatExts_graph)
  have "distinct kvs" using assms by (simp add: range_order_def)
  moreover have "inj_on snd (set kvs)" using s formatExts_entries_inj by simp
  ultimately show "distinct (map snd kvs)" by (simp add: distinct_map)
qed

lemma range_order_entries: "range_order formatExts formatExts_entries"
  by (simp add: range_order_def formatExts_graph) (simp add: formatExts_entries_def Format_defs)

lemma range_order_rev: "range_order formatExts (rev formatExts_entries)"
  using range_order_entries by (simp add: range_order_def)

lemma loop_order_irrelevant:
  assumes "range_order formatExts kvs"
  shows "FormatFromExtension_loop kvs ext = FormatFromExtension_loop formatExts_entries ext"
proof (cases "FormatFromExtension_loop kvs ext")
  case None
  then have "ext \<notin> snd ` set formatExts_entries"
    using range_order_formatExts(1) [OF assms] by (simp add: loop_None_iff)
  then have "FormatFromExtension_loop formatExts_entries ext = None"
    by (simp add: loop_None_iff)
  then show ?thesis using None by simp
next
  case (Some r)
  then have "\<exists>k. r = (k, None) \<and> (k, ext) \<in> set formatExts_entries"
    using range_order_formatExts [OF assms] by (simp add: loop_Some_iff)
  then have "FormatFromExtension_loop formatExts_entries ext = Some r"
    using range_order_formatExts(2) [OF range_order_entries] by (simp add: loop_Some_iff)
  then show ?thesis using Some by simp
qed

lemma FormatFromExtension_order_irrelevant:
  "range_order formatExts kvs \<Longrightarrow>
   FormatFromExtension u kvs ext = FormatFromExtension u formatExts_entries ext"
  by (simp add: FormatFromExtension_def loop_order_irrelevant)

lemma lower_byte_fixed: "\<not> isUpper c \<Longrightarrow> lower_byte c = c"
  by (simp add: lower_byte_def)

lemma ToLower_ASCII: "isASCII s \<Longrightarrow> strings_ToLower u s = map lower_byte s"
  by (auto simp: strings_ToLower_def hasUpper_def list_ex_iff lower_byte_fixed map_idI)

lemma loop_entries:
  "FormatFromExtension_loop formatExts_entries e =
     (if e = ''jpg'' then Some (JPEG, None) else if e = ''png'' then Some (PNG, None)
      else if e = ''gif'' then Some (GIF, None) else if e = ''tif'' then Some (TIFF, None)
      else if e = ''bmp'' then Some (BMP, None) else if e = ''pdf'' then Some (PDF, None)
      else None)"
  by (simp add: formatExts_entries_def)

section \<open>\<^verbatim>\<open>Opaque\<close> reads the alpha byte of every pixel\<close>

declare Opaque_row.simps [simp del] Opaque_rows.simps [simp del]

text \<open>A number that fits in 64 bits is what \<open>sint\<close> reads of its word.\<close>

lemma sint_int64: "- (2 ^ 63) \<le> k \<Longrightarrow> k < 2 ^ 63 \<Longrightarrow> sint (word_of_int k :: int64) = k"
  by (simp add: sint_sbintrunc' signed_take_bit_int_eq_self)

lemma Ball_shift: "(\<forall>k\<in>{0..<b - a}. P (a + k)) = (\<forall>x\<in>{a..<b::int}. P x)"
proof
  assume l: "\<forall>k\<in>{0..<b - a}. P (a + k)"
  show "\<forall>x\<in>{a..<b}. P x"
  proof
    fix x assume "x \<in> {a..<b}"
    then have "x - a \<in> {0..<b - a}" by simp
    with l have "P (a + (x - a))" by blast
    then show "P x" by simp
  qed
next
  assume "\<forall>x\<in>{a..<b}. P x"
  then show "\<forall>k\<in>{0..<b - a}. P (a + k)" by simp
qed

text \<open>
  One row, from column \<open>k0\<close> on: \<open>c\<close> is the offset of the row in \<open>Pix\<close> and \<open>n\<close> the
  width. Where the row lies inside \<open>Pix\<close> and below \<open>2^63 - 3\<close>, no addition of the loop
  wraps around, no read panics, and the loop returns whether every alpha byte is \<open>0xff\<close>.
\<close>

lemma Opaque_row_result:
  fixes c k0 n :: int
  assumes c: "0 \<le> c" and k0: "0 \<le> k0" "k0 \<le> n"
    and top: "c + 4 * n + 3 < 2 ^ 63" and held: "c + 4 * n \<le> int (len pix)"
  shows "Opaque_row h pix (word_of_int (c + 4 * k0 + 3)) (word_of_int (c + 4 * n)) =
           Some (\<forall>k\<in>{k0..<n}. slice_index h pix (word_of_int (c + 4 * k + 3)) = Some 0xff)"
  using k0
proof (induction "nat (n - k0)" arbitrary: k0)
  case 0
  then have eq: "k0 = n" by simp
  have "sint (word_of_int (c + 4 * n + 3) :: int64) = c + 4 * n + 3"
    using c 0(2) eq top by (intro sint_int64) simp_all
  moreover have "sint (word_of_int (c + 4 * n) :: int64) = c + 4 * n"
    using c 0(2) eq top by (intro sint_int64) simp_all
  ultimately have "\<not> sint (word_of_int (c + 4 * n + 3) :: int64) < sint (word_of_int (c + 4 * n) :: int64)"
    by linarith
  then show ?case
    unfolding eq by (subst Opaque_row.simps) (simp only: if_False, simp)
next
  case (Suc m)
  then have lt: "k0 < n" by simp
  define i :: int64 where "i = word_of_int (c + 4 * k0 + 3)"
  define i1 :: int64 where "i1 = word_of_int (c + 4 * n)"
  have si: "sint i = c + 4 * k0 + 3"
    unfolding i_def using c Suc.prems lt top by (intro sint_int64) simp_all
  have si1: "sint i1 = c + 4 * n"
    unfolding i1_def using c Suc.prems lt top by (intro sint_int64) simp_all
  have split: "{k0..<n} = insert k0 {k0 + 1..<n}" using lt by auto
  obtain a where a: "slice_index h pix i = Some a"
    using c Suc.prems lt held by (simp add: slice_index_def si)
  have nxt: "i + 4 = word_of_int (c + 4 * (k0 + 1) + 3)"
    unfolding i_def by simp
  have rest: "Opaque_row h pix (i + 4) i1 =
            Some (\<forall>k\<in>{k0 + 1..<n}. slice_index h pix (word_of_int (c + 4 * k + 3)) = Some 0xff)"
    unfolding nxt i1_def using Suc.hyps(2) Suc.prems lt by (intro Suc.hyps(1)) simp_all
  have step: "Opaque_row h pix i i1 =
      (if a \<noteq> 0xff then Some False else Opaque_row h pix (i + 4) i1)"
    using lt by (subst Opaque_row.simps) (simp add: si si1 a)
  have "Opaque_row h pix i i1 =
      Some (slice_index h pix i = Some 0xff \<and>
            (\<forall>k\<in>{k0 + 1..<n}. slice_index h pix (word_of_int (c + 4 * k + 3)) = Some 0xff))"
    unfolding step rest using a by simp
  then show ?case
    unfolding split ball_simps i_def i1_def .
qed

lemma alpha_at_pixel_start:
  "alpha_at h p (word_of_int x) (word_of_int y) =
     slice_index h (Pix p) (word_of_int (pixel_start p x y + 3))"
  by (simp add: alpha_at_def PixOffset_def pixel_start_def)

lemma Opaque_row_pixels:
  assumes wf: "pixels_wf p"
    and x: "sint (X (Min_pt (Rect p))) < sint (X (Max_pt (Rect p)))"
    and r: "0 \<le> r" "sint (Y (Min_pt (Rect p))) + r < sint (Y (Max_pt (Rect p)))"
  shows "Opaque_row h (Pix p) (3 + word_of_int r * Stride p)
           (Rectangle_Dx (Rect p) * 4 + word_of_int r * Stride p) =
         Some (\<forall>x\<in>{sint (X (Min_pt (Rect p)))..<sint (X (Max_pt (Rect p)))}.
                 alpha_at h p (word_of_int x) (word_of_int (sint (Y (Min_pt (Rect p))) + r)) = Some 0xff)"
proof -
  define a where "a = sint (X (Min_pt (Rect p)))"
  define b where "b = sint (X (Max_pt (Rect p)))"
  define y where "y = sint (Y (Min_pt (Rect p))) + r"
  define c where "c = r * sint (Stride p)"
  have start: "pixel_start p (a + k) y = c + 4 * k" for k
    by (simp add: pixel_start_def a_def y_def c_def)
  have y: "y \<in> {sint (Y (Min_pt (Rect p)))..<sint (Y (Max_pt (Rect p)))}"
    using r by (simp add: y_def)
  have held: "0 \<le> pixel_start p x y \<and> pixel_start p x y + 4 \<le> int (len (Pix p))"
    if "x \<in> {a..<b}" for x
    using wf y that unfolding pixels_wf_def a_def b_def by blast
  have len: "int (len (Pix p)) + 3 < 2 ^ 63"
    using wf by (simp add: pixels_wf_def)
  have ab: "a < b" using x by (simp add: a_def b_def)
  then have "a \<in> {a..<b}" by simp
  from held [OF this] start [of 0] have c0: "0 \<le> c" by simp
  have "b - 1 \<in> {a..<b}" using ab by simp
  from held [OF this] start [of "b - a - 1"] have cn: "c + 4 * (b - a) \<le> int (len (Pix p))"
    by simp
  have top: "c + 4 * (b - a) + 3 < 2 ^ 63" using cn len by simp
  have i0: "3 + word_of_int r * Stride p = (word_of_int (c + 4 * 0 + 3) :: int64)"
    by (simp add: c_def)
  have i1: "Rectangle_Dx (Rect p) * 4 + word_of_int r * Stride p = (word_of_int (c + 4 * (b - a)) :: int64)"
    by (simp add: c_def Rectangle_Dx_def a_def b_def)
  have "Opaque_row h (Pix p) (word_of_int (c + 4 * 0 + 3)) (word_of_int (c + 4 * (b - a))) =
          Some (\<forall>k\<in>{0..<b - a}. slice_index h (Pix p) (word_of_int (c + 4 * k + 3)) = Some 0xff)"
    using c0 _ _ top cn by (rule Opaque_row_result) (use ab in simp_all)
  also have "(\<forall>k\<in>{0..<b - a}. slice_index h (Pix p) (word_of_int (c + 4 * k + 3)) = Some 0xff) =
             (\<forall>k\<in>{0..<b - a}. alpha_at h p (word_of_int (a + k)) (word_of_int y) = Some 0xff)"
    by (simp only: alpha_at_pixel_start start)
  also have "\<dots> = (\<forall>x\<in>{a..<b}. alpha_at h p (word_of_int x) (word_of_int y) = Some 0xff)"
    by (rule Ball_shift)
  finally show ?thesis
    unfolding i0 i1 a_def b_def y_def .
qed

lemma Opaque_rows_result:
  assumes wf: "pixels_wf p"
    and x: "sint (X (Min_pt (Rect p))) < sint (X (Max_pt (Rect p)))"
    and r: "0 \<le> r" "sint (Y (Min_pt (Rect p))) + r \<le> sint (Y (Max_pt (Rect p)))"
  shows "Opaque_rows h p (word_of_int (sint (Y (Min_pt (Rect p))) + r))
           (3 + word_of_int r * Stride p)
           (Rectangle_Dx (Rect p) * 4 + word_of_int r * Stride p) =
         Some (\<forall>y\<in>{sint (Y (Min_pt (Rect p))) + r..<sint (Y (Max_pt (Rect p)))}.
               \<forall>x\<in>{sint (X (Min_pt (Rect p)))..<sint (X (Max_pt (Rect p)))}.
                 alpha_at h p (word_of_int x) (word_of_int y) = Some 0xff)"
  using r
proof (induction "nat (sint (Y (Max_pt (Rect p))) - sint (Y (Min_pt (Rect p))) - r)" arbitrary: r)
  case 0
  define y :: int64 where "y = word_of_int (sint (Y (Min_pt (Rect p))) + r)"
  from 0 have eq: "sint (Y (Min_pt (Rect p))) + r = sint (Y (Max_pt (Rect p)))" by simp
  have "y = Y (Max_pt (Rect p))" unfolding y_def eq by simp
  then have stop: "\<not> sint y < sint (Y (Max_pt (Rect p)))" by simp
  have "Opaque_rows h p y (3 + word_of_int r * Stride p)
           (Rectangle_Dx (Rect p) * 4 + word_of_int r * Stride p) = Some True"
    using stop by (subst Opaque_rows.simps) simp
  then show ?case
    unfolding y_def eq by simp
next
  case (Suc m)
  define lo where "lo = sint (Y (Min_pt (Rect p)))"
  define hi where "hi = sint (Y (Max_pt (Rect p)))"
  define y :: int64 where "y = word_of_int (lo + r)"
  define i0 :: int64 where "i0 = 3 + word_of_int r * Stride p"
  define i1 :: int64 where "i1 = Rectangle_Dx (Rect p) * 4 + word_of_int r * Stride p"
  from Suc have lt: "lo + r < hi" by (simp add: lo_def hi_def)
  have "- (2 ^ 63) \<le> lo" and "hi < 2 ^ 63"
    using sint_ge [of "Y (Min_pt (Rect p))"] sint_lt [of "Y (Max_pt (Rect p))"]
    by (simp_all add: lo_def hi_def)
  then have sy: "sint y = lo + r"
    unfolding y_def using Suc.prems(1) lt by (intro sint_int64) simp_all
  have split: "{lo + r..<hi} = insert (lo + r) {lo + (r + 1)..<hi}" using lt by auto
  have row: "Opaque_row h (Pix p) i0 i1 =
         Some (\<forall>x\<in>{sint (X (Min_pt (Rect p)))..<sint (X (Max_pt (Rect p)))}.
                 alpha_at h p (word_of_int x) (word_of_int (lo + r)) = Some 0xff)"
    unfolding i0_def i1_def lo_def
    using wf x Suc.prems(1) lt [unfolded lo_def hi_def] by (rule Opaque_row_pixels)
  have nxt: "y + 1 = word_of_int (lo + (r + 1))"
    "i0 + Stride p = 3 + word_of_int (r + 1) * Stride p"
    "i1 + Stride p = Rectangle_Dx (Rect p) * 4 + word_of_int (r + 1) * Stride p"
    unfolding y_def i0_def i1_def by (simp_all add: algebra_simps)
  have rest: "Opaque_rows h p (y + 1) (i0 + Stride p) (i1 + Stride p) =
         Some (\<forall>y\<in>{lo + (r + 1)..<hi}.
               \<forall>x\<in>{sint (X (Min_pt (Rect p)))..<sint (X (Max_pt (Rect p)))}.
                 alpha_at h p (word_of_int x) (word_of_int y) = Some 0xff)"
    unfolding nxt lo_def hi_def
    using Suc.hyps(2) Suc.prems lt [unfolded lo_def hi_def] by (intro Suc.hyps(1)) simp_all
  have step: "Opaque_rows h p y i0 i1 =
      (case Opaque_row h (Pix p) i0 i1 of
         None \<Rightarrow> None
       | Some False \<Rightarrow> Some False
       | Some True \<Rightarrow> Opaque_rows h p (y + 1) (i0 + Stride p) (i1 + Stride p))"
    using lt by (subst Opaque_rows.simps) (simp add: sy hi_def)
  have "Opaque_rows h p y i0 i1 =
         Some (\<forall>y\<in>{lo + r..<hi}.
               \<forall>x\<in>{sint (X (Min_pt (Rect p)))..<sint (X (Max_pt (Rect p)))}.
                 alpha_at h p (word_of_int x) (word_of_int y) = Some 0xff)"
    unfolding step row rest split by (simp split: bool.split)
  then show ?case
    unfolding y_def i0_def i1_def lo_def hi_def .
qed

lemma NRGBA_Opaque_fully_opaque:
  assumes "pixels_wf p"
  shows "NRGBA_Opaque h p = Some (fully_opaque h p)"
proof (cases "Rectangle_Empty (Rect p)")
  case True
  then have "fully_opaque h p"
    by (auto simp: fully_opaque_def Rectangle_Empty_def)
  with True show ?thesis by (simp add: NRGBA_Opaque_def)
next
  case False
  then have x: "sint (X (Min_pt (Rect p))) < sint (X (Max_pt (Rect p)))"
    and y: "sint (Y (Min_pt (Rect p))) + 0 \<le> sint (Y (Max_pt (Rect p)))"
    by (simp_all add: Rectangle_Empty_def)
  have "Opaque_rows h p (word_of_int (sint (Y (Min_pt (Rect p))) + 0))
           (3 + word_of_int 0 * Stride p)
           (Rectangle_Dx (Rect p) * 4 + word_of_int 0 * Stride p) =
         Some (\<forall>y\<in>{sint (Y (Min_pt (Rect p))) + 0..<sint (Y (Max_pt (Rect p)))}.
               \<forall>x\<in>{sint (X (Min_pt (Rect p)))..<sint (X (Max_pt (Rect p)))}.
                 alpha_at h p (word_of_int x) (word_of_int y) = Some 0xff)"
    using assms x _ y by (rule Opaque_rows_result) simp
  then have "Opaque_rows h p (Y (Min_pt (Rect p))) 3 (Rectangle_Dx (Rect p) * 4) =
      Some (fully_opaque h p)"
    by (simp add: fully_opaque_def)
  with False show ?thesis by (simp add: NRGBA_Opaque_def)
qed

section \<open>Properties of \<^verbatim>\<open>Encode\<close>\<close>

lemma Encode_switch_NRGBA:
  "Encode_switch h JPEG cfg (Image_NRGBA p) =
     (case NRGBA_Opaque h p of
        None \<Rightarrow> Panic
      | Some True \<Rightarrow> Invoke (jpeg_Encode (Image_RGBA \<lparr>Pix = Pix p, Stride = Stride p, Rect = Rect p\<rparr>) (Quality cfg))
      | Some False \<Rightarrow> Invoke (jpeg_Encode (Image_NRGBA p) (Quality cfg)))"
  by (simp add: Encode_switch_def)

lemma Encode_switch_not_NRGBA:
  "\<forall>q. img \<noteq> Image_NRGBA q \<Longrightarrow> Encode_switch h JPEG cfg img = Invoke (jpeg_Encode img (Quality cfg))"
  by (cases img) (simp_all add: Encode_switch_def)

lemma Encode_Invoke:
  "Encode_switch (heap (world s)) (Format f) (Encode_config s f) img = Invoke c \<Longrightarrow>
   Encode codec f s img = Some (invoke codec c s)"
  by (simp add: Encode_def)

lemma pixels_view: "\<lparr>Pix = Pix p, Stride = Stride p, Rect = Rect p\<rparr> = (p::pixels)"
  by (cases p) simp

lemma Encode_config_initial_state [simp]:
  "Encode_config (initial_state h) \<lparr>Format = fmt, EncodeOption = []\<rparr> = defaultEncodeConfig_init"
  by (simp add: Encode_config_def initial_state_def)

lemma Encode_frame:
  "Encode codec f s img = Some (s', e) \<Longrightarrow> defaultEncodeConfig s' = defaultEncodeConfig s"
  by (auto simp: Encode_def invoke_def Let_def split: dispatch.splits prod.splits)

lemma Encode_run_frame: "defaultEncodeConfig (Encode_run codec calls s) = defaultEncodeConfig s"
proof (induction calls arbitrary: s)
  case Nil
  show ?case by simp
next
  case (Cons call calls)
  obtain f img where call: "call = (f, img)" by (cases call)
  show ?case
  proof (cases "Encode codec f s img")
    case None
    then show ?thesis by (simp add: call)
  next
    case (Some r)
    obtain s' e where r: "r = (s', e)" by (cases r)
    have "defaultEncodeConfig (Encode_run codec calls s') = defaultEncodeConfig s'"
      by (rule Cons.IH)
    also have "\<dots> = defaultEncodeConfig s"
      using Some r by (intro Encode_frame) simp
    finally show ?thesis using Some r by (simp add: call)
  qed
qed

lemma Encode_switch_JPEG:
  "Encode_switch h JPEG cfg img = Panic \<or>
   (\<exists>img'. Encode_switch h JPEG cfg img = Invoke (jpeg_Encode img' (Quality cfg)))"
  by (cases img) (auto simp: Encode_switch_def split: option.split bool.split)

section \<open>The claims\<close>

text \<open>
  Claim C1, as amended. When the format is JPEG and the input is an \<^verbatim>\<open>*image.NRGBA\<close>
  whose \<open>Pix\<close> holds the four bytes of every pixel of its \<open>Rect\<close>, \<^verbatim>\<open>Encode\<close> hands
  the codec an \<^verbatim>\<open>RGBA\<close> with the \<open>Pix\<close> slice, the \<open>Stride\<close> and the \<open>Rect\<close> of the
  input exactly when all its pixels are fully opaque, and the codec runs on the world
  as \<^verbatim>\<open>Encode\<close> found it: nothing was allocated or copied there. Such an \<^verbatim>\<open>NRGBA\<close>
  with a pixel that is not fully opaque, and an image of any other type, is handed to
  the codec as it is.
\<close>

theorem jpeg_opaque_NRGBA_view:
  assumes "Format f = JPEG"
  shows
   "(pixels_wf p \<and> fully_opaque (heap (world s)) p \<longrightarrow>
       Encode codec f s (Image_NRGBA p) =
         Some (invoke codec
           (jpeg_Encode (Image_RGBA \<lparr>Pix = Pix p, Stride = Stride p, Rect = Rect p\<rparr>)
              (Quality (Encode_config s f))) s)) \<and>
    (pixels_wf p \<and> \<not> fully_opaque (heap (world s)) p \<longrightarrow>
       Encode codec f s (Image_NRGBA p) =
         Some (invoke codec (jpeg_Encode (Image_NRGBA p) (Quality (Encode_config s f))) s)) \<and>
    ((\<forall>q. img \<noteq> Image_NRGBA q) \<longrightarrow>
       Encode codec f s img =
         Some (invoke codec (jpeg_Encode img (Quality (Encode_config s f))) s))"
proof (intro conjI impI)
  assume "pixels_wf p \<and> fully_opaque (heap (world s)) p"
  then have "NRGBA_Opaque (heap (world s)) p = Some True"
    by (simp add: NRGBA_Opaque_fully_opaque)
  then show "Encode codec f s (Image_NRGBA p) =
         Some (invoke codec
           (jpeg_Encode (Image_RGBA \<lparr>Pix = Pix p, Stride = Stride p, Rect = Rect p\<rparr>)
              (Quality (Encode_config s f))) s)"
    using assms by (intro Encode_Invoke) (simp add: Encode_switch_NRGBA)
next
  assume "pixels_wf p \<and> \<not> fully_opaque (heap (world s)) p"
  then have "NRGBA_Opaque (heap (world s)) p = Some False"
    by (simp add: NRGBA_Opaque_fully_opaque)
  then show "Encode codec f s (Image_NRGBA p) =
         Some (invoke codec (jpeg_Encode (Image_NRGBA p) (Quality (Encode_config s f))) s)"
    using assms by (intro Encode_Invoke) (simp add: Encode_switch_NRGBA)
next
  assume "\<forall>q. img \<noteq> Image_NRGBA q"
  then show "Encode codec f s img =
         Some (invoke codec (jpeg_Encode img (Quality (Encode_config s f))) s)"
    using assms by (intro Encode_Invoke) (simp add: Encode_switch_not_NRGBA)
qed

theorem jpeg_opaque_NRGBA_view_witness:
  "Format \<lparr>Format = JPEG, EncodeOption = []\<rparr> = JPEG \<and>
   pixels_wf image_2x1 \<and> fully_opaque opaque_heap image_2x1 \<and>
   Encode logging_codec \<lparr>Format = JPEG, EncodeOption = []\<rparr> (initial_state opaque_heap) (Image_NRGBA image_2x1) =
     Some (invoke logging_codec (jpeg_Encode (Image_RGBA image_2x1) 75) (initial_state opaque_heap)) \<and>
   \<not> fully_opaque translucent_heap image_2x1 \<and>
   Encode logging_codec \<lparr>Format = JPEG, EncodeOption = []\<rparr> (initial_state translucent_heap) (Image_NRGBA image_2x1) =
     Some (invoke logging_codec (jpeg_Encode (Image_NRGBA image_2x1) 75) (initial_state translucent_heap)) \<and>
   Encode logging_codec \<lparr>Format = JPEG, EncodeOption = []\<rparr> (initial_state translucent_heap) (Image_RGBA image_2x1) =
     Some (invoke logging_codec (jpeg_Encode (Image_RGBA image_2x1) 75) (initial_state translucent_heap))"
proof -
  let ?f = "\<lparr>Format = JPEG, EncodeOption = []\<rparr>"
  have f: "Format ?f = JPEG" by simp
  have o: "fully_opaque opaque_heap image_2x1" by code_simp
  have t: "\<not> fully_opaque translucent_heap image_2x1" by code_simp
  have w: "pixels_wf image_2x1" by code_simp
  have q: "Quality defaultEncodeConfig_init = 75" by (simp add: defaultEncodeConfig_init_def)
  have h: "heap (world (initial_state h)) = h" for h by (simp add: initial_state_def)
  have n: "\<forall>q. Image_RGBA image_2x1 \<noteq> Image_NRGBA q" by simp
  from jpeg_opaque_NRGBA_view [OF f, of image_2x1 "initial_state opaque_heap" logging_codec] o w
  have 1: "Encode logging_codec ?f (initial_state opaque_heap) (Image_NRGBA image_2x1) =
     Some (invoke logging_codec (jpeg_Encode (Image_RGBA image_2x1) 75) (initial_state opaque_heap))"
    by (simp add: h q pixels_view)
  from jpeg_opaque_NRGBA_view [OF f, of image_2x1 "initial_state translucent_heap" logging_codec "Image_RGBA image_2x1"] t w n
  have 2: "Encode logging_codec ?f (initial_state translucent_heap) (Image_NRGBA image_2x1) =
     Some (invoke logging_codec (jpeg_Encode (Image_NRGBA image_2x1) 75) (initial_state translucent_heap))"
   and 3: "Encode logging_codec ?f (initial_state translucent_heap) (Image_RGBA image_2x1) =
     Some (invoke logging_codec (jpeg_Encode (Image_RGBA image_2x1) 75) (initial_state translucent_heap))"
    by (simp_all add: h q pixels_view)
  from f o t w 1 2 3 show ?thesis by blast
qed

text \<open>
  Claim C1 as it was stated fails where \<open>Pix\<close> does not hold the pixels. In the 3-by-2
  image pixel \<open>(0, 1)\<close> is not opaque, and the image is not passed to the codec:
  \<^verbatim>\<open>Opaque\<close> panics on \<open>Pix[11]\<close> before it reaches the second row. In the image whose
  \<^verbatim>\<open>Dx()\<close> wraps around, pixel \<open>(-2^63 + 1, 0)\<close> lies outside \<open>Pix\<close>, and the codec
  still receives the \<^verbatim>\<open>RGBA\<close> view: \<^verbatim>\<open>Opaque\<close> has read one alpha byte only.
\<close>

theorem jpeg_opaque_NRGBA_view_counterexample:
  "Format \<lparr>Format = JPEG, EncodeOption = []\<rparr> = JPEG \<and>
   sint (X (Min_pt (Rect image_3x2_short))) \<le> 0 \<and> 0 < sint (X (Max_pt (Rect image_3x2_short))) \<and>
   sint (Y (Min_pt (Rect image_3x2_short))) \<le> 1 \<and> 1 < sint (Y (Max_pt (Rect image_3x2_short))) \<and>
   alpha_at hole_heap image_3x2_short 0 1 = Some 0 \<and>
   Encode logging_codec \<lparr>Format = JPEG, EncodeOption = []\<rparr> (initial_state hole_heap)
       (Image_NRGBA image_3x2_short) = None \<and>
   sint (X (Min_pt (Rect image_wide))) \<le> - (2 ^ 63) + 1 \<and>
   - (2 ^ 63) + 1 < sint (X (Max_pt (Rect image_wide))) \<and>
   sint (Y (Min_pt (Rect image_wide))) \<le> 0 \<and> 0 < sint (Y (Max_pt (Rect image_wide))) \<and>
   alpha_at opaque_heap image_wide (- (2 ^ 63) + 1) 0 = None \<and>
   Encode logging_codec \<lparr>Format = JPEG, EncodeOption = []\<rparr> (initial_state opaque_heap)
       (Image_NRGBA image_wide) =
     Some (invoke logging_codec (jpeg_Encode (Image_RGBA image_wide) 75) (initial_state opaque_heap))"
proof -
  let ?f = "\<lparr>Format = JPEG, EncodeOption = []\<rparr>"
  have h: "heap (world (initial_state h)) = h" for h by (simp add: initial_state_def)
  have q: "Quality defaultEncodeConfig_init = 75" by (simp add: defaultEncodeConfig_init_def)
  have r1: "sint (X (Min_pt (Rect image_3x2_short))) \<le> 0" "0 < sint (X (Max_pt (Rect image_3x2_short)))"
    "sint (Y (Min_pt (Rect image_3x2_short))) \<le> 1" "1 < sint (Y (Max_pt (Rect image_3x2_short)))"
    by (simp_all add: image_3x2_short_def)
  have a1: "alpha_at hole_heap image_3x2_short 0 1 = Some 0" by code_simp
  have o1: "NRGBA_Opaque hole_heap image_3x2_short = None" by code_simp
  have e1: "Encode logging_codec ?f (initial_state hole_heap) (Image_NRGBA image_3x2_short) = None"
    by (simp add: Encode_def Encode_switch_NRGBA h o1)
  have r2: "sint (X (Min_pt (Rect image_wide))) \<le> - (2 ^ 63) + 1"
    "- (2 ^ 63) + 1 < sint (X (Max_pt (Rect image_wide)))"
    "sint (Y (Min_pt (Rect image_wide))) \<le> 0" "0 < sint (Y (Max_pt (Rect image_wide)))"
    by code_simp+
  have a2: "alpha_at opaque_heap image_wide (- (2 ^ 63) + 1) 0 = None" by code_simp
  have o2: "NRGBA_Opaque opaque_heap image_wide = Some True" by code_simp
  have e2: "Encode logging_codec ?f (initial_state opaque_heap) (Image_NRGBA image_wide) =
     Some (invoke logging_codec (jpeg_Encode (Image_RGBA image_wide) 75) (initial_state opaque_heap))"
    by (simp add: Encode_def Encode_switch_NRGBA h o2 q pixels_view)
  have f: "Format ?f = JPEG" by simp
  from f r1 a1 e1 r2 a2 e2 show ?thesis by blast
qed

text \<open>
  Claim C2. For each of the six formats JPEG, PNG, GIF, TIFF, BMP and PDF,
  \<^verbatim>\<open>StringOfFormat\<close> succeeds, and \<^verbatim>\<open>FormatFromExtension\<close> on the extension it returns
  gives the format back with a \<^verbatim>\<open>nil\<close> error, in whatever order the map is iterated.
\<close>

theorem extension_roundtrip:
  assumes "range_order formatExts kvs" and "F \<in> {JPEG, PNG, GIF, TIFF, BMP, PDF}"
  shows "snd (StringOfFormat F) = None \<and>
         FormatFromExtension unicode_lower kvs (fst (StringOfFormat F)) = (F, None)"
proof -
  have "snd (StringOfFormat F) = None \<and>
        FormatFromExtension unicode_lower formatExts_entries (fst (StringOfFormat F)) = (F, None)"
    using assms(2)
    by (auto simp: StringOfFormat_def formatExts_def Format_defs FormatFromExtension_def
        loop_entries ToLower_ASCII isASCII_def lower_byte_def isUpper_def)
  then show ?thesis
    by (simp add: FormatFromExtension_order_irrelevant [OF assms(1)])
qed

theorem extension_roundtrip_witness:
  "range_order formatExts (rev formatExts_entries) \<and> TIFF \<in> {JPEG, PNG, GIF, TIFF, BMP, PDF} \<and>
   StringOfFormat TIFF = (''tif'', None) \<and>
   FormatFromExtension id (rev formatExts_entries) ''tif'' = (TIFF, None)"
proof -
  have m: "TIFF \<in> {JPEG, PNG, GIF, TIFF, BMP, PDF}" by simp
  have s: "StringOfFormat TIFF = (''tif'', None)"
    by (simp add: StringOfFormat_def formatExts_def Format_defs)
  have "FormatFromExtension id (rev formatExts_entries) (fst (StringOfFormat TIFF)) = (TIFF, None)"
    using extension_roundtrip [OF range_order_rev m, of id] by simp
  then have "FormatFromExtension id (rev formatExts_entries) ''tif'' = (TIFF, None)"
    by (simp add: s)
  with range_order_rev m s show ?thesis by blast
qed

text \<open>
  Claim C3. With no option, and the package variable at its initial value, the
  configuration is the default one: quality 75 for JPEG and PDF, 256 colours, a
  \<^verbatim>\<open>nil\<close> quantizer and a \<^verbatim>\<open>nil\<close> drawer for GIF, \<^verbatim>\<open>png.DefaultCompression\<close> for PNG
  and \<^verbatim>\<open>tiff.LZW\<close> for TIFF; and whatever the configuration, the TIFF codec is called
  with \<^verbatim>\<open>Predictor: true\<close>.
\<close>

theorem Encode_defaults:
  assumes "defaultEncodeConfig s = defaultEncodeConfig_init" and "EncodeOption f = []"
  shows
   "Encode_config s f =
      \<lparr>Quality = 75, gifNumColors = 256, gifQuantizer = None, gifDrawer = None,
       pngCompressionLevel = png_DefaultCompression, tiffCompressionType = TIFFLZW\<rparr> \<and>
    (Format f = JPEG \<longrightarrow>
       Encode codec f s img = None \<or>
       (\<exists>img'. Encode codec f s img = Some (invoke codec (jpeg_Encode img' 75) s))) \<and>
    (Format f = PDF \<longrightarrow> Encode codec f s img = Some (invoke codec (pdf_Encode [img] 75) s)) \<and>
    (Format f = GIF \<longrightarrow>
       Encode codec f s img = Some (invoke codec (gif_Encode img 256 None None) s)) \<and>
    (Format f = PNG \<longrightarrow>
       Encode codec f s img = Some (invoke codec (png_Encode png_DefaultCompression img) s)) \<and>
    (Format f = TIFF \<longrightarrow>
       Encode codec f s img = Some (invoke codec (tiff_Encode img tiff_LZW True) s)) \<and>
    (\<forall>h cfg. \<exists>c. Encode_switch h TIFF cfg img = Invoke (tiff_Encode img c True))"
proof -
  have cfg: "Encode_config s f = defaultEncodeConfig_init"
    using assms by (simp add: Encode_config_def)
  have jpeg: "Encode codec f s img = None \<or>
       (\<exists>img'. Encode codec f s img = Some (invoke codec (jpeg_Encode img' 75) s))"
    if "Format f = JPEG"
    using that Encode_switch_JPEG [of "heap (world s)" defaultEncodeConfig_init img]
    by (auto simp: Encode_def cfg defaultEncodeConfig_init_def)
  have rest: "(Format f = PDF \<longrightarrow> Encode codec f s img = Some (invoke codec (pdf_Encode [img] 75) s)) \<and>
    (Format f = GIF \<longrightarrow>
       Encode codec f s img = Some (invoke codec (gif_Encode img 256 None None) s)) \<and>
    (Format f = PNG \<longrightarrow>
       Encode codec f s img = Some (invoke codec (png_Encode png_DefaultCompression img) s)) \<and>
    (Format f = TIFF \<longrightarrow>
       Encode codec f s img = Some (invoke codec (tiff_Encode img tiff_LZW True) s))"
    by (simp add: Encode_def cfg Encode_switch_def defaultEncodeConfig_init_def Format_defs
        TIFFCompression_value_def)
  have tiff: "\<forall>h cfg. \<exists>c. Encode_switch h TIFF cfg img = Invoke (tiff_Encode img c True)"
    by (simp add: Encode_switch_def Format_defs)
  show ?thesis
    using jpeg rest tiff by (simp add: cfg defaultEncodeConfig_init_def)
qed

theorem Encode_defaults_witness:
  "defaultEncodeConfig (initial_state opaque_heap) = defaultEncodeConfig_init \<and>
   EncodeOption \<lparr>Format = TIFF, EncodeOption = []\<rparr> = [] \<and>
   Format \<lparr>Format = TIFF, EncodeOption = []\<rparr> = TIFF \<and>
   Encode logging_codec \<lparr>Format = TIFF, EncodeOption = []\<rparr> (initial_state opaque_heap) (Image_RGBA image_2x1) =
     Some (invoke logging_codec (tiff_Encode (Image_RGBA image_2x1) tiff_LZW True) (initial_state opaque_heap)) \<and>
   Format \<lparr>Format = GIF, EncodeOption = []\<rparr> = GIF \<and>
   Encode logging_codec \<lparr>Format = GIF, EncodeOption = []\<rparr> (initial_state opaque_heap) (Image_RGBA image_2x1) =
     Some (invoke logging_codec (gif_Encode (Image_RGBA image_2x1) 256 None None) (initial_state opaque_heap))"
proof -
  have d: "defaultEncodeConfig (initial_state opaque_heap) = defaultEncodeConfig_init"
    by (simp add: initial_state_def)
  have t: "EncodeOption \<lparr>Format = TIFF, EncodeOption = []\<rparr> = []" "Format \<lparr>Format = TIFF, EncodeOption = []\<rparr> = TIFF"
    by simp_all
  have g: "EncodeOption \<lparr>Format = GIF, EncodeOption = []\<rparr> = []" "Format \<lparr>Format = GIF, EncodeOption = []\<rparr> = GIF"
    by simp_all
  from Encode_defaults [OF d t(1), of logging_codec "Image_RGBA image_2x1"] t(2)
  have 1: "Encode logging_codec \<lparr>Format = TIFF, EncodeOption = []\<rparr> (initial_state opaque_heap) (Image_RGBA image_2x1) =
     Some (invoke logging_codec (tiff_Encode (Image_RGBA image_2x1) tiff_LZW True) (initial_state opaque_heap))"
    by blast
  from Encode_defaults [OF d g(1), of logging_codec "Image_RGBA image_2x1"] g(2)
  have 2: "Encode logging_codec \<lparr>Format = GIF, EncodeOption = []\<rparr> (initial_state opaque_heap) (Image_RGBA image_2x1) =
     Some (invoke logging_codec (gif_Encode (Image_RGBA image_2x1) 256 None None) (initial_state opaque_heap))"
    by blast
  from d t g 1 2 show ?thesis by blast
qed



text \<open>
  Claim C5. For a format that is none of JPEG, PNG, GIF, TIFF, BMP and PDF (\<open>-1\<close> or
  \<open>6\<close>, say) \<^verbatim>\<open>Encode\<close> returns the error \<open>unsupported image format\<close> and leaves the
  state, the writer's bytes with it, as it was. For each of the six formats the
  \<^verbatim>\<open>switch\<close> never reaches that error: \<^verbatim>\<open>Encode\<close> calls a codec (or, for JPEG,
  panics in \<^verbatim>\<open>Opaque\<close>).
\<close>

theorem Encode_unsupported_format:
  "(Format f \<notin> {JPEG, PNG, GIF, TIFF, BMP, PDF} \<longrightarrow>
      Encode codec f s img = Some (s, Some (Error ''unsupported image format''))) \<and>
   (Format f \<in> {JPEG, PNG, GIF, TIFF, BMP, PDF} \<longrightarrow>
      (\<forall>e. Encode_switch h (Format f) cfg img \<noteq> Return_error e) \<and>
      (Encode codec f s img = None \<or> (\<exists>c. Encode codec f s img = Some (invoke codec c s))))"
proof (intro conjI impI)
  assume "Format f \<notin> {JPEG, PNG, GIF, TIFF, BMP, PDF}"
  then show "Encode codec f s img = Some (s, Some (Error ''unsupported image format''))"
    by (simp add: Encode_def Encode_switch_def errors_New_def)
next
  assume six: "Format f \<in> {JPEG, PNG, GIF, TIFF, BMP, PDF}"
  show no_error: "\<forall>e. Encode_switch h (Format f) cfg img \<noteq> Return_error e" for h cfg
    using six
    by (auto simp: Encode_switch_def Format_defs split: Image.split option.split bool.split)
  show "Encode codec f s img = None \<or> (\<exists>c. Encode codec f s img = Some (invoke codec c s))"
    using no_error [of "heap (world s)" "Encode_config s f"]
    by (cases "Encode_switch (heap (world s)) (Format f) (Encode_config s f) img")
      (auto simp: Encode_def)
qed

theorem Encode_unsupported_format_witness:
  "Format \<lparr>Format = 6, EncodeOption = [Quality_option 10]\<rparr> \<notin> {JPEG, PNG, GIF, TIFF, BMP, PDF} \<and>
   Encode logging_codec \<lparr>Format = 6, EncodeOption = [Quality_option 10]\<rparr> (initial_state opaque_heap)
       (Image_NRGBA image_2x1) =
     Some (initial_state opaque_heap, Some (Error ''unsupported image format'')) \<and>
   Format \<lparr>Format = - 1, EncodeOption = []\<rparr> \<notin> {JPEG, PNG, GIF, TIFF, BMP, PDF} \<and>
   Encode logging_codec \<lparr>Format = - 1, EncodeOption = []\<rparr> (initial_state opaque_heap)
       (Image_NRGBA image_2x1) =
     Some (initial_state opaque_heap, Some (Error ''unsupported image format'')) \<and>
   Format \<lparr>Format = BMP, EncodeOption = []\<rparr> \<in> {JPEG, PNG, GIF, TIFF, BMP, PDF} \<and>
   Encode_switch opaque_heap BMP defaultEncodeConfig_init (Image_NRGBA image_2x1) \<noteq>
     Return_error (Error ''unsupported image format'')"
proof -
  let ?f6 = "\<lparr>Format = 6, EncodeOption = [Quality_option 10]\<rparr>"
  let ?f1 = "\<lparr>Format = - 1, EncodeOption = []\<rparr>"
  let ?fb = "\<lparr>Format = BMP, EncodeOption = []\<rparr>"
  have a: "Format ?f6 \<notin> {JPEG, PNG, GIF, TIFF, BMP, PDF}" by (simp add: Format_defs)
  have b: "Format ?f1 \<notin> {JPEG, PNG, GIF, TIFF, BMP, PDF}" by (simp add: Format_defs)
  have c: "Format ?fb \<in> {JPEG, PNG, GIF, TIFF, BMP, PDF}" by simp
  from Encode_unsupported_format [of ?f6 logging_codec "initial_state opaque_heap" "Image_NRGBA image_2x1"] a
  have 1: "Encode logging_codec ?f6 (initial_state opaque_heap) (Image_NRGBA image_2x1) =
     Some (initial_state opaque_heap, Some (Error ''unsupported image format''))" by blast
  from Encode_unsupported_format [of ?f1 logging_codec "initial_state opaque_heap" "Image_NRGBA image_2x1"] b
  have 2: "Encode logging_codec ?f1 (initial_state opaque_heap) (Image_NRGBA image_2x1) =
     Some (initial_state opaque_heap, Some (Error ''unsupported image format''))" by blast
  from Encode_unsupported_format [of ?fb _ _ "Image_NRGBA image_2x1" opaque_heap defaultEncodeConfig_init] c
  have 3: "Encode_switch opaque_heap BMP defaultEncodeConfig_init (Image_NRGBA image_2x1) \<noteq>
     Return_error (Error ''unsupported image format'')" by simp
  from a b c 1 2 3 show ?thesis by blast
qed

text \<open>
  Claim C6. \<^verbatim>\<open>FormatFromExtension\<close> matches the lower-cased input: its result depends on
  the input only through \<^verbatim>\<open>strings.ToLower\<close>, two ASCII strings that differ in letter
  case only resolve alike, \<open>Jpg\<close> and \<open>JPG\<close> resolve to JPEG, and every string whose
  lower-casing is none of the six registered extensions, \<open>txt\<close> among them, gets the
  format \<open>-1\<close> and the error \<open>unsupported image format\<close>.
\<close>

theorem FormatFromExtension_lowercases:
  assumes "range_order formatExts kvs"
  shows "(strings_ToLower unicode_lower a = strings_ToLower unicode_lower b \<longrightarrow>
            FormatFromExtension unicode_lower kvs a = FormatFromExtension unicode_lower kvs b) \<and>
         (isASCII a \<and> isASCII b \<and> map lower_byte a = map lower_byte b \<longrightarrow>
            FormatFromExtension unicode_lower kvs a = FormatFromExtension unicode_lower kvs b) \<and>
         FormatFromExtension unicode_lower kvs ''Jpg'' = (JPEG, None) \<and>
         FormatFromExtension unicode_lower kvs ''JPG'' = (JPEG, None) \<and>
         (strings_ToLower unicode_lower ext \<notin> {''jpg'', ''png'', ''gif'', ''tif'', ''bmp'', ''pdf''} \<longrightarrow>
            FormatFromExtension unicode_lower kvs ext = (- 1, Some (Error ''unsupported image format''))) \<and>
         FormatFromExtension unicode_lower kvs ''txt'' = (- 1, Some (Error ''unsupported image format''))"
proof -
  have 1: "strings_ToLower unicode_lower ''Jpg'' = ''jpg''" by code_simp
  have 2: "strings_ToLower unicode_lower ''JPG'' = ''jpg''" by code_simp
  have 3: "strings_ToLower unicode_lower ''txt'' = ''txt''" by code_simp
  show ?thesis
    unfolding FormatFromExtension_order_irrelevant [OF assms]
    by (simp add: FormatFromExtension_def loop_entries 1 2 3 ToLower_ASCII errors_New_def)
qed

theorem FormatFromExtension_lowercases_witness:
  "range_order formatExts (rev formatExts_entries) \<and>
   isASCII ''gIf'' \<and> isASCII ''GIF'' \<and> map lower_byte ''gIf'' = map lower_byte ''GIF'' \<and>
   FormatFromExtension id (rev formatExts_entries) ''gIf'' = FormatFromExtension id (rev formatExts_entries) ''GIF'' \<and>
   strings_ToLower id ''docx'' \<notin> {''jpg'', ''png'', ''gif'', ''tif'', ''bmp'', ''pdf''} \<and>
   FormatFromExtension id (rev formatExts_entries) ''docx'' = (- 1, Some (Error ''unsupported image format'')) \<and>
   FormatFromExtension id (rev formatExts_entries) ''Jpg'' = (JPEG, None)"
proof -
  have a: "isASCII ''gIf''" "isASCII ''GIF''" by code_simp+
  have m: "map lower_byte ''gIf'' = map lower_byte ''GIF''" by code_simp
  have d: "strings_ToLower id ''docx'' \<notin> {''jpg'', ''png'', ''gif'', ''tif'', ''bmp'', ''pdf''}"
    by code_simp
  note t = FormatFromExtension_lowercases [OF range_order_rev, of id "''gIf''" "''GIF''" "''docx''"]
  from t a m have "FormatFromExtension id (rev formatExts_entries) ''gIf'' =
                   FormatFromExtension id (rev formatExts_entries) ''GIF''" by blast
  moreover from t d have "FormatFromExtension id (rev formatExts_entries) ''docx'' =
                   (- 1, Some (Error ''unsupported image format''))" by blast
  moreover from t have "FormatFromExtension id (rev formatExts_entries) ''Jpg'' = (JPEG, None)" by blast
  ultimately show ?thesis using range_order_rev a m d by blast
qed

text \<open>
  Claim C7. \<^verbatim>\<open>TIFFCompression.value\<close> takes each of \<^verbatim>\<open>TIFFLZW\<close>, \<^verbatim>\<open>TIFFDeflate\<close>,
  \<^verbatim>\<open>TIFFCCITTGroup3\<close>, \<^verbatim>\<open>TIFFCCITTGroup4\<close> and \<^verbatim>\<open>TIFFJPEG\<close> to the codec's constant of the
  same name, and every other value, \<^verbatim>\<open>TIFFUncompressed\<close> and any integer out of range
  among them, to \<^verbatim>\<open>tiff.Uncompressed\<close>.
\<close>

theorem TIFFCompression_value_cases:
  "TIFFCompression_value TIFFLZW = tiff_LZW \<and>
   TIFFCompression_value TIFFDeflate = tiff_Deflate \<and>
   TIFFCompression_value TIFFCCITTGroup3 = tiff_CCITTGroup3 \<and>
   TIFFCompression_value TIFFCCITTGroup4 = tiff_CCITTGroup4 \<and>
   TIFFCompression_value TIFFJPEG = tiff_JPEG \<and>
   TIFFCompression_value TIFFUncompressed = tiff_Uncompressed \<and>
   (c \<notin> {TIFFLZW, TIFFDeflate, TIFFCCITTGroup3, TIFFCCITTGroup4, TIFFJPEG} \<longrightarrow>
      TIFFCompression_value c = tiff_Uncompressed)"
  by (simp add: TIFFCompression_value_def TIFFCompression_defs)

theorem TIFFCompression_value_cases_witness:
  "(6::int) \<notin> {TIFFLZW, TIFFDeflate, TIFFCCITTGroup3, TIFFCCITTGroup4, TIFFJPEG} \<and>
   TIFFCompression_value 6 = tiff_Uncompressed \<and>
   TIFFCompression_value (- 1) = tiff_Uncompressed"
  using TIFFCompression_value_cases [of 6] TIFFCompression_value_cases [of "- 1"]
  by (simp add: TIFFCompression_defs)

text \<open>
  Claim C8. \<^verbatim>\<open>Encode\<close> builds its configuration from a copy of the package variable
  \<^verbatim>\<open>defaultEncodeConfig\<close> and never assigns to the variable: after a call, and after any
  run of calls with any options and any codec, the variable holds what it held before
  (quality 75, 256 colours, no quantizer, no drawer, \<^verbatim>\<open>png.DefaultCompression\<close>,
  \<^verbatim>\<open>TIFFLZW\<close> when it started so), and the configuration a later call builds is the one
  it would have built before the earlier calls.
\<close>

theorem default_config_never_mutated:
  "defaultEncodeConfig (Encode_run codec calls s) = defaultEncodeConfig s \<and>
   (Encode codec f s img = Some (s', e) \<longrightarrow>
      defaultEncodeConfig s' = defaultEncodeConfig s \<and> Encode_config s' f' = Encode_config s f') \<and>
   (defaultEncodeConfig s = defaultEncodeConfig_init \<longrightarrow>
      defaultEncodeConfig (Encode_run codec calls s) =
        \<lparr>Quality = 75, gifNumColors = 256, gifQuantizer = None, gifDrawer = None,
         pngCompressionLevel = png_DefaultCompression, tiffCompressionType = TIFFLZW\<rparr>) \<and>
   Encode_config (Encode_run codec calls s) f' =
     fold (\<lambda>option cfg. option cfg) (EncodeOption f') (defaultEncodeConfig s)"
proof (intro conjI impI)
  show "defaultEncodeConfig (Encode_run codec calls s) = defaultEncodeConfig s"
    by (rule Encode_run_frame)
next
  assume "Encode codec f s img = Some (s', e)"
  then show "defaultEncodeConfig s' = defaultEncodeConfig s" by (rule Encode_frame)
  then show "Encode_config s' f' = Encode_config s f'" by (simp add: Encode_config_def)
next
  assume "defaultEncodeConfig s = defaultEncodeConfig_init"
  then show "defaultEncodeConfig (Encode_run codec calls s) =
        \<lparr>Quality = 75, gifNumColors = 256, gifQuantizer = None, gifDrawer = None,
         pngCompressionLevel = png_DefaultCompression, tiffCompressionType = TIFFLZW\<rparr>"
    by (simp add: Encode_run_frame defaultEncodeConfig_init_def)
next
  show "Encode_config (Encode_run codec calls s) f' =
     fold (\<lambda>option cfg. option cfg) (EncodeOption f') (defaultEncodeConfig s)"
    by (simp add: Encode_config_def Encode_run_frame)
qed

theorem default_config_never_mutated_witness:
  "defaultEncodeConfig (initial_state opaque_heap) = defaultEncodeConfig_init \<and>
   defaultEncodeConfig (Encode_run logging_codec example_calls (initial_state opaque_heap)) =
        \<lparr>Quality = 75, gifNumColors = 256, gifQuantizer = None, gifDrawer = None,
         pngCompressionLevel = png_DefaultCompression, tiffCompressionType = TIFFLZW\<rparr> \<and>
   Encode logging_codec \<lparr>Format = BMP, EncodeOption = [Quality_option 10]\<rparr> (initial_state opaque_heap)
       (Image_RGBA image_2x1) =
     Some (\<lparr>defaultEncodeConfig = defaultEncodeConfig_init, world = \<lparr>heap = opaque_heap, sink = [0x2a]\<rparr>\<rparr>, None) \<and>
   Encode_config \<lparr>defaultEncodeConfig = defaultEncodeConfig_init, world = \<lparr>heap = opaque_heap, sink = [0x2a]\<rparr>\<rparr>
       \<lparr>Format = JPEG, EncodeOption = []\<rparr> =
     Encode_config (initial_state opaque_heap) \<lparr>Format = JPEG, EncodeOption = []\<rparr>"
proof -
  let ?s1 = "\<lparr>defaultEncodeConfig = defaultEncodeConfig_init, world = \<lparr>heap = opaque_heap, sink = [0x2a]\<rparr>\<rparr>"
  let ?f = "\<lparr>Format = BMP, EncodeOption = [Quality_option 10]\<rparr>"
  have d: "defaultEncodeConfig (initial_state opaque_heap) = defaultEncodeConfig_init"
    by (simp add: initial_state_def)
  have e: "Encode logging_codec ?f (initial_state opaque_heap) (Image_RGBA image_2x1) = Some (?s1, None)"
    by (simp add: Encode_def Encode_switch_def Format_defs invoke_def logging_codec_def initial_state_def)
  note t = default_config_never_mutated [of logging_codec example_calls "initial_state opaque_heap"
      ?f "Image_RGBA image_2x1" ?s1 None "\<lparr>Format = JPEG, EncodeOption = []\<rparr>"]
  from t d have 1: "defaultEncodeConfig (Encode_run logging_codec example_calls (initial_state opaque_heap)) =
        \<lparr>Quality = 75, gifNumColors = 256, gifQuantizer = None, gifDrawer = None,
         pngCompressionLevel = png_DefaultCompression, tiffCompressionType = TIFFLZW\<rparr>" by blast
  from t e have 2: "Encode_config ?s1 \<lparr>Format = JPEG, EncodeOption = []\<rparr> =
     Encode_config (initial_state opaque_heap) \<lparr>Format = JPEG, EncodeOption = []\<rparr>" by blast
  from d e 1 2 show ?thesis by blast
qed

text \<open>
  Claim C9. The long forms \<open>jpeg\<close> and \<open>tiff\<close>, in any letter case, are not in the
  registry: \<^verbatim>\<open>FormatFromExtension\<close> returns the error \<open>unsupported image format\<close> for
  them, although its comment lists them. A string resolves exactly when its lower-casing
  is one of \<open>jpg\<close>, \<open>png\<close>, \<open>gif\<close>, \<open>tif\<close>, \<open>bmp\<close>, \<open>pdf\<close>.
\<close>

theorem long_extensions_unsupported:
  assumes "range_order formatExts kvs"
  shows "(strings_ToLower unicode_lower ext \<in> {''jpeg'', ''tiff''} \<longrightarrow>
            FormatFromExtension unicode_lower kvs ext = (- 1, Some (Error ''unsupported image format''))) \<and>
         (isASCII ext \<and> map lower_byte ext \<in> {''jpeg'', ''tiff''} \<longrightarrow>
            FormatFromExtension unicode_lower kvs ext = (- 1, Some (Error ''unsupported image format''))) \<and>
         (snd (FormatFromExtension unicode_lower kvs ext) = None \<longleftrightarrow>
            strings_ToLower unicode_lower ext \<in> {''jpg'', ''png'', ''gif'', ''tif'', ''bmp'', ''pdf''})"
  unfolding FormatFromExtension_order_irrelevant [OF assms]
  by (auto simp: FormatFromExtension_def loop_entries ToLower_ASCII errors_New_def Let_def split: if_splits)

theorem long_extensions_unsupported_witness:
  "range_order formatExts formatExts_entries \<and>
   isASCII ''JPEG'' \<and> map lower_byte ''JPEG'' \<in> {''jpeg'', ''tiff''} \<and>
   FormatFromExtension id formatExts_entries ''JPEG'' = (- 1, Some (Error ''unsupported image format'')) \<and>
   strings_ToLower id ''tiff'' \<in> {''jpeg'', ''tiff''} \<and>
   FormatFromExtension id formatExts_entries ''tiff'' = (- 1, Some (Error ''unsupported image format''))"
proof -
  have a: "isASCII ''JPEG''" by code_simp
  have m: "map lower_byte ''JPEG'' \<in> {''jpeg'', ''tiff''}" by code_simp
  have l: "strings_ToLower id ''tiff'' \<in> {''jpeg'', ''tiff''}" by code_simp
  from long_extensions_unsupported [OF range_order_entries, of id "''JPEG''"] a m
  have "FormatFromExtension id formatExts_entries ''JPEG'' = (- 1, Some (Error ''unsupported image format''))"
    by blast
  moreover from long_extensions_unsupported [OF range_order_entries, of id "''tiff''"] l
  have "FormatFromExtension id formatExts_entries ''tiff'' = (- 1, Some (Error ''unsupported image format''))"
    by blast
  ultimately show ?thesis using range_order_entries a m l by blast
qed

text \<open>
  Claim C10. The extension strings of the registry are pairwise distinct, so at most one
  entry matches an input: two runs of \<^verbatim>\<open>FormatFromExtension\<close> on the same string, each
  with its own iteration order of the map, return the same pair.
\<close>

theorem FormatFromExtension_deterministic:
  assumes "range_order formatExts kvs1" and "range_order formatExts kvs2"
  shows "distinct (map snd kvs1) \<and>
         FormatFromExtension unicode_lower kvs1 ext = FormatFromExtension unicode_lower kvs2 ext"
  by (simp add: FormatFromExtension_order_irrelevant [OF assms(1)]
      FormatFromExtension_order_irrelevant [OF assms(2)] range_order_formatExts(2) [OF assms(1)])

theorem FormatFromExtension_deterministic_witness:
  "range_order formatExts formatExts_entries \<and> range_order formatExts (rev formatExts_entries) \<and>
   FormatFromExtension id formatExts_entries ''Png'' = FormatFromExtension id (rev formatExts_entries) ''Png''"
  using FormatFromExtension_deterministic [OF range_order_entries range_order_rev, of id "''Png''"]
    range_order_entries range_order_rev
  by blast

end
